theory Spec2Isabelle
  imports Main "HOL-Library.AList"
begin

section \<open>Python values\<close>

text \<open>
  A Python \<^verbatim>\<open>str\<close> is a sequence of Unicode code points; a code point is a natural
  number. \<open>str\<close> turns an ASCII literal into such a sequence.
\<close>

type_synonym pystr = "nat list"

definition str :: "string \<Rightarrow> pystr" where
  "str s = map of_char s"

text \<open>
  The scalar values a field of a \<^verbatim>\<open>Command\<close> holds (\<^verbatim>\<open>None\<close>, \<^verbatim>\<open>bool\<close>, \<^verbatim>\<open>int\<close>,
  \<^verbatim>\<open>str\<close>), and the exceptions of the modelled code.
\<close>

datatype pyval = PNone | PBool bool | PInt int | PStr pystr

datatype error =
    Fatal pystr
  | TypeError
  | AttributeError
  | IndexError
  | YAMLError
  | MissingValueError pystr
  | ConstructionError pystr

text \<open>
  Modelled from the spec: \<^verbatim>\<open>error\<close> of the module \<^verbatim>\<open>common\<close> is not among the
  sources. The spec says of the two places that call it that the resolver "fails
  fatally (the whole run aborts)" and that "construction fails with a configuration
  error": the call does not return, and the message is carried by the failure.
\<close>

definition error :: "pystr \<Rightarrow> error + 'a" where
  "error msg = Inl (Fatal msg)"

section \<open>Command\<close>

record Command =
  command :: pyval
  expect :: pyval
  timeout :: pyval
  echo :: pyval
  check_exit_code :: pyval
  should_fail :: pyval

text \<open>
  \<^verbatim>\<open>Command(command=com)\<close>: the dataclass defaults of every other field.
\<close>

definition Command_init :: "pystr \<Rightarrow> Command" where
  "Command_init com =
     \<lparr>command = PStr com, expect = PNone, timeout = PInt (- 1), echo = PNone,
      check_exit_code = PNone, should_fail = PNone\<rparr>"

subsection \<open>The placeholder pattern\<close>

text \<open>
  \<^verbatim>\<open>\s\<close> of \<^verbatim>\<open>re\<close> on a \<^verbatim>\<open>str\<close> pattern: the code points Python counts as
  whitespace.
\<close>

definition is_space :: "nat \<Rightarrow> bool" where
  "is_space c \<longleftrightarrow>
     (9 \<le> c \<and> c \<le> 13) \<or> (28 \<le> c \<and> c \<le> 32) \<or> c = 133 \<or> c = 160 \<or> c = 5760 \<or>
     (8192 \<le> c \<and> c \<le> 8202) \<or> c = 8232 \<or> c = 8233 \<or> c = 8239 \<or> c = 8287 \<or>
     c = 12288"

text \<open>The character class \<^verbatim>\<open>[\sa-zA-Z0-9_\-]\<close>.\<close>

definition name_char :: "nat \<Rightarrow> bool" where
  "name_char c \<longleftrightarrow>
     is_space c \<or> (97 \<le> c \<and> c \<le> 122) \<or> (65 \<le> c \<and> c \<le> 90) \<or>
     (48 \<le> c \<and> c \<le> 57) \<or> c = 95 \<or> c = 45"

text \<open>
  The text \<^verbatim>\<open>${{name}}\<close> of a placeholder: \<^verbatim>\<open>$\<close> is 36, \<^verbatim>\<open>{\<close> is 123 and
  \<^verbatim>\<open>}\<close> is 125.
\<close>

definition placeholder :: "pystr \<Rightarrow> pystr" where
  "placeholder name = [36, 123, 123] @ name @ [125, 125]"

text \<open>
  One attempt of the pattern \<^verbatim>\<open>\$\{\{([\sa-zA-Z0-9_\-]*)\}\}\<close> at the head of a
  text: the group and the text after the match. The star is greedy and takes the
  longest run of class characters; giving characters back never helps, since no
  class character is a \<^verbatim>\<open>}\<close>.
\<close>

fun match_here :: "pystr \<Rightarrow> (pystr \<times> pystr) option" where
  "match_here (a # b # c # s) =
     (if a = 36 \<and> b = 123 \<and> c = 123 then
        (case dropWhile name_char s of
           d # e # rest \<Rightarrow>
             if d = 125 \<and> e = 125 then Some (takeWhile name_char s, rest) else None
         | _ \<Rightarrow> None)
      else None)"
| "match_here _ = None"

text \<open>
  \<^verbatim>\<open>re.finditer\<close>: the matches from left to right, none overlapping another; each
  is the pair of \<^verbatim>\<open>match[0]\<close> and \<^verbatim>\<open>match[1]\<close>.
\<close>

function finditer :: "pystr \<Rightarrow> (pystr \<times> pystr) list" where
  "finditer [] = []"
| "finditer (c # cs) =
     (case match_here (c # cs) of
        Some (name, rest) \<Rightarrow> (placeholder name, name) # finditer rest
      | None \<Rightarrow> finditer cs)"
  by pat_completeness auto
termination
proof (relation "measure length", goal_cases)
  case 1
  show ?case by simp
next
  case (2 c cs)
  show ?case by simp
next
  case (3 c cs x2 name rest)
  then have m: "match_here (c # cs) = Some (name, rest)" by simp
  then obtain b d t where cs: "cs = b # d # t"
    by (cases cs rule: match_here.cases) auto
  with m obtain e f where "dropWhile name_char t = e # f # rest"
    by (auto split: if_splits list.splits)
  moreover have "length (dropWhile name_char t) \<le> length t"
    by (rule length_dropWhile_le)
  ultimately show ?case using cs by simp
qed

subsection \<open>Replacing\<close>

text \<open>
  \<^verbatim>\<open>str.replace(old, new)\<close>: every occurrence of \<open>old\<close>, from left to right, none
  overlapping another. With an empty \<open>old\<close>, Python puts \<open>new\<close> before every
  character and at the end. In \<open>replace_from\<close>, \<open>skip\<close> counts the characters of
  the occurrence just replaced that are still to be passed over.
\<close>

fun replace_from :: "nat \<Rightarrow> pystr \<Rightarrow> pystr \<Rightarrow> pystr \<Rightarrow> pystr" where
  "replace_from skip [] old new = []"
| "replace_from skip (c # cs) old new =
     (if 0 < skip then replace_from (skip - 1) cs old new
      else if take (length old) (c # cs) = old
        then new @ replace_from (length old - 1) cs old new
        else c # replace_from 0 cs old new)"

definition replace :: "pystr \<Rightarrow> pystr \<Rightarrow> pystr \<Rightarrow> pystr" where
  "replace s old new =
     (if old = [] then new @ concat (map (\<lambda>c. c # new) s)
      else replace_from 0 s old new)"

subsection \<open>Resolving the variables of a command\<close>

type_synonym 'v dict = "(pystr \<times> 'v) list"

text \<open>The loop of \<^verbatim>\<open>Command.apply_vars\<close> over the matches of the original text.\<close>

fun apply_vars_loop :: "(pystr \<times> pystr) list \<Rightarrow> pystr dict \<Rightarrow> pystr \<Rightarrow> error + pystr" where
  "apply_vars_loop [] vars cmd = Inr cmd"
| "apply_vars_loop ((pattern, var_name) # ms) vars cmd =
     (case map_of vars var_name of
        Some v \<Rightarrow> apply_vars_loop ms vars (replace cmd pattern v)
      | None \<Rightarrow> error (str ''Variable '' @ var_name @ str '' not found!''))"

definition Command_apply_vars :: "Command \<Rightarrow> pystr dict \<Rightarrow> error + Command" where
  "Command_apply_vars self vars =
     (case command self of
        PStr s \<Rightarrow>
          (case apply_vars_loop (finditer s) vars s of
             Inl e \<Rightarrow> Inl e
           | Inr s' \<Rightarrow> Inr (self\<lparr>command := PStr s'\<rparr>))
      | _ \<Rightarrow> Inl TypeError)"

subsection \<open>Inheriting the properties of the task\<close>

text \<open>Python's \<^verbatim>\<open>==\<close> on scalars: a \<^verbatim>\<open>bool\<close> is the integer 0 or 1.\<close>

fun py_eq :: "pyval \<Rightarrow> pyval \<Rightarrow> bool" where
  "py_eq PNone PNone = True"
| "py_eq (PBool a) (PBool b) = (a = b)"
| "py_eq (PBool a) (PInt j) = ((if a then 1 else 0) = j)"
| "py_eq (PInt i) (PBool b) = (i = (if b then 1 else 0))"
| "py_eq (PInt i) (PInt j) = (i = j)"
| "py_eq (PStr s) (PStr t) = (s = t)"
| "py_eq _ _ = False"

text \<open>
  \<^verbatim>\<open>__getitem__\<close> is \<^verbatim>\<open>getattr\<close>: a name that is no attribute raises. Of the
  attributes of a \<^verbatim>\<open>Command\<close> the six fields are modelled.
\<close>

definition getitem :: "Command \<Rightarrow> pystr \<Rightarrow> error + pyval" where
  "getitem self item =
     (if item = str ''command'' then Inr (command self)
      else if item = str ''expect'' then Inr (expect self)
      else if item = str ''timeout'' then Inr (timeout self)
      else if item = str ''echo'' then Inr (echo self)
      else if item = str ''check_exit_code'' then Inr (check_exit_code self)
      else if item = str ''should_fail'' then Inr (should_fail self)
      else Inl AttributeError)"

text \<open>
  \<^verbatim>\<open>__setitem__\<close> is \<^verbatim>\<open>setattr\<close>. \<^verbatim>\<open>_apply_task_properties\<close> reads a key before
  it assigns to it, so a key that names no field never reaches the assignment.
\<close>

definition setitem :: "Command \<Rightarrow> pystr \<Rightarrow> pyval \<Rightarrow> Command" where
  "setitem self key item =
     (if key = str ''command'' then self\<lparr>command := item\<rparr>
      else if key = str ''expect'' then self\<lparr>expect := item\<rparr>
      else if key = str ''timeout'' then self\<lparr>timeout := item\<rparr>
      else if key = str ''echo'' then self\<lparr>echo := item\<rparr>
      else if key = str ''check_exit_code'' then self\<lparr>check_exit_code := item\<rparr>
      else if key = str ''should_fail'' then self\<lparr>should_fail := item\<rparr>
      else self)"

text \<open>The names of the fields of a \<^verbatim>\<open>Command\<close>.\<close>

definition field_names :: "pystr set" where
  "field_names = {str ''command'', str ''expect'', str ''timeout'', str ''echo'',
     str ''check_exit_code'', str ''should_fail''}"

text \<open>\<^verbatim>\<open>xs[i]\<close> for an index that is not negative.\<close>

definition index :: "'a list \<Rightarrow> nat \<Rightarrow> error + 'a" where
  "index xs i = (if i < length xs then Inr (xs ! i) else Inl IndexError)"

text \<open>
  The loop of \<^verbatim>\<open>_apply_task_properties\<close> from the index \<open>it\<close> of
  \<^verbatim>\<open>enumerate(keys)\<close> on. The condition reads \<^verbatim>\<open>self[key]\<close>, then
  \<^verbatim>\<open>defaults[it]\<close>; \<^verbatim>\<open>task_values[it]\<close> is read only when they are equal.
\<close>

fun apply_task_properties_from ::
  "nat \<Rightarrow> pystr list \<Rightarrow> pyval list \<Rightarrow> pyval list \<Rightarrow> Command \<Rightarrow> error + Command" where
  "apply_task_properties_from it [] defaults task_values self = Inr self"
| "apply_task_properties_from it (key # keys) defaults task_values self =
     (case getitem self key of
        Inl e \<Rightarrow> Inl e
      | Inr own \<Rightarrow>
          (case index defaults it of
             Inl e \<Rightarrow> Inl e
           | Inr d \<Rightarrow>
               if py_eq own d then
                 (case index task_values it of
                    Inl e \<Rightarrow> Inl e
                  | Inr v \<Rightarrow>
                      apply_task_properties_from (Suc it) keys defaults task_values
                        (setitem self key v))
               else
                 apply_task_properties_from (Suc it) keys defaults task_values
                   (setitem self key own)))"

definition apply_task_properties ::
  "Command \<Rightarrow> pystr list \<Rightarrow> pyval list \<Rightarrow> pyval list \<Rightarrow> error + Command" where
  "apply_task_properties self keys defaults task_values =
     apply_task_properties_from 0 keys defaults task_values self"

section \<open>Structured data\<close>

text \<open>
  What a task definition is made of: the values \<^verbatim>\<open>yaml.safe_load\<close> returns
  (the scalars above, lists, mappings with \<^verbatim>\<open>str\<close> keys) and the \<^verbatim>\<open>Command\<close>
  objects the loaders put among them. A mapping keeps the order of its items, and its
  keys are distinct. Floating-point numbers, dates and binary data are left out.
\<close>

datatype pydata =
    Val pyval
  | PList "pydata list"
  | PDict "(pystr \<times> pydata) list"
  | PCommand Command

text \<open>Python's truth value of an object.\<close>

fun truthy :: "pydata \<Rightarrow> bool" where
  "truthy (Val PNone) = False"
| "truthy (Val (PBool b)) = b"
| "truthy (Val (PInt i)) = (i \<noteq> 0)"
| "truthy (Val (PStr s)) = (s \<noteq> [])"
| "truthy (PList xs) = (xs \<noteq> [])"
| "truthy (PDict d) = (d \<noteq> [])"
| "truthy (PCommand c) = True"

text \<open>\<^verbatim>\<open>a | b\<close> and \<^verbatim>\<open>a.update(b)\<close>: the items of \<open>b\<close> are stored into \<open>a\<close> in turn.\<close>

definition dict_or :: "'v dict \<Rightarrow> 'v dict \<Rightarrow> 'v dict" where
  "dict_or a b = fold (\<lambda>(k, v). AList.update k v) b a"

text \<open>
  \<^verbatim>\<open>{name_map[name]: value for name, value in dict.items()}\<close>
\<close>

definition rename_keys :: "(pystr \<Rightarrow> pystr) \<Rightarrow> 'v dict \<Rightarrow> 'v dict" where
  "rename_keys name_map d = fold (\<lambda>(name, value). AList.update (name_map name) value) d []"

definition bind :: "error + 'a \<Rightarrow> ('a \<Rightarrow> error + 'b) \<Rightarrow> error + 'b" where
  "bind m f = (case m of Inl e \<Rightarrow> Inl e | Inr x \<Rightarrow> f x)"

subsection \<open>Binding a mapping to a data class\<close>

text \<open>
  \<^verbatim>\<open>dacite.from_dict\<close> with its default configuration goes through the fields of
  the data class in their order. A field whose name is a key of the data takes the
  value there, which must be an instance of the field's type; a field whose name is
  no key takes its default, and has to have one. Keys of the data that name no field
  are not looked at. \<^verbatim>\<open>ConstructionError\<close> stands for what is raised on a value
  that is no instance of the type (\<^verbatim>\<open>WrongTypeError\<close>, or the exception of a
  collection that cannot be built) and carries the field at which binding stopped;
  \<^verbatim>\<open>MissingValueError\<close> carries the field without a value.
\<close>

text \<open>\<^verbatim>\<open>isinstance\<close> for the scalar types; a \<^verbatim>\<open>bool\<close> is an \<^verbatim>\<open>int\<close>.\<close>

datatype py_type = T_str | T_int | T_bool

fun is_instance :: "pyval \<Rightarrow> py_type \<Rightarrow> bool" where
  "is_instance (PStr s) T_str = True"
| "is_instance (PInt i) T_int = True"
| "is_instance (PBool b) T_int = True"
| "is_instance (PBool b) T_bool = True"
| "is_instance _ _ = False"

text \<open>A field of type \<open>t\<close>, or of type \<^verbatim>\<open>t | NoneType\<close> when \<open>opt\<close> holds.\<close>

definition scalar_field ::
  "pydata dict \<Rightarrow> pystr \<Rightarrow> py_type \<Rightarrow> bool \<Rightarrow> pyval option \<Rightarrow> error + pyval" where
  "scalar_field data name t opt dflt =
     (case map_of data name of
        None \<Rightarrow> (case dflt of None \<Rightarrow> Inl (MissingValueError name) | Some v \<Rightarrow> Inr v)
      | Some (Val v) \<Rightarrow>
          if is_instance v t \<or> (opt \<and> v = PNone) then Inr v
          else Inl (ConstructionError name)
      | Some _ \<Rightarrow> Inl (ConstructionError name))"

definition dacite_Command :: "pydata dict \<Rightarrow> error + Command" where
  "dacite_Command data =
     bind (scalar_field data (str ''command'') T_str False (Some (PStr []))) (\<lambda>v1.
     bind (scalar_field data (str ''expect'') T_str True (Some PNone)) (\<lambda>v2.
     bind (scalar_field data (str ''timeout'') T_int True (Some (PInt (- 1)))) (\<lambda>v3.
     bind (scalar_field data (str ''echo'') T_bool True (Some PNone)) (\<lambda>v4.
     bind (scalar_field data (str ''check_exit_code'') T_bool True (Some PNone)) (\<lambda>v5.
     bind (scalar_field data (str ''should_fail'') T_bool True (Some PNone)) (\<lambda>v6.
     Inr \<lparr>command = v1, expect = v2, timeout = v3, echo = v4,
          check_exit_code = v5, should_fail = v6\<rparr>))))))"



subsection \<open>Loading a command\<close>

definition name_map_Command :: "pystr \<Rightarrow> pystr" where
  "name_map_Command name =
     (if name = str ''check-exit-code'' then str ''check_exit_code''
      else if name = str ''should-fail'' then str ''should_fail''
      else name)"

text \<open>
  \<^verbatim>\<open>Command.load_from_dict\<close>. A \<^verbatim>\<open>str\<close> stands for the mapping of \<^verbatim>\<open>command\<close>
  to it; in a mapping, a \<^verbatim>\<open>command\<close> that is absent or not true becomes the empty
  text. Anything else has no \<^verbatim>\<open>get\<close>.
\<close>

definition Command_load_from_dict :: "pydata \<Rightarrow> error + Command" where
  "Command_load_from_dict dict =
     (case dict of
        Val (PStr s) \<Rightarrow>
          dacite_Command (rename_keys name_map_Command [(str ''command'', Val (PStr s))])
      | PDict d \<Rightarrow>
          dacite_Command (rename_keys name_map_Command
            (if \<not> (case map_of d (str ''command'') of None \<Rightarrow> False | Some v \<Rightarrow> truthy v)
             then AList.update (str ''command'') (Val (PStr [])) d
             else d))
      | _ \<Rightarrow> Inl AttributeError)"

section \<open>Task\<close>

text \<open>
  The fields of a \<^verbatim>\<open>Task\<close>, under the types its loader checks. The two fields of
  type \<^verbatim>\<open>int\<close> keep the value as it was given, which may be a \<^verbatim>\<open>bool\<close>.
\<close>

record Task =
  task_name :: pystr
  task_shell :: pystr
  task_requires :: "pystr list"
  task_before :: "pystr list"
  task_echo :: bool
  task_timeout :: pyval
  task_fail_fast :: bool
  task_check_exit_code :: bool
  task_should_fail :: bool
  task_sleep :: pyval
  task_disabled :: bool
  task_commands :: "Command list"
  task_vars :: "pystr dict"


subsection \<open>Binding a mapping to a task\<close>

definition as_str :: "pydata \<Rightarrow> pystr option" where
  "as_str x = (case x of Val (PStr s) \<Rightarrow> Some s | _ \<Rightarrow> None)"

text \<open>A field of type \<^verbatim>\<open>str\<close> without a default.\<close>

definition str_field :: "pydata dict \<Rightarrow> pystr \<Rightarrow> error + pystr" where
  "str_field data name =
     (case map_of data name of
        None \<Rightarrow> Inl (MissingValueError name)
      | Some x \<Rightarrow> (case as_str x of Some s \<Rightarrow> Inr s | None \<Rightarrow> Inl (ConstructionError name)))"

text \<open>A field of type \<^verbatim>\<open>bool\<close>.\<close>

definition bool_field :: "pydata dict \<Rightarrow> pystr \<Rightarrow> bool \<Rightarrow> error + bool" where
  "bool_field data name dflt =
     (case map_of data name of
        None \<Rightarrow> Inr dflt
      | Some (Val (PBool b)) \<Rightarrow> Inr b
      | Some _ \<Rightarrow> Inl (ConstructionError name))"

text \<open>A field of type \<^verbatim>\<open>list[str]\<close>, an empty list by default.\<close>

definition str_list_field :: "pydata dict \<Rightarrow> pystr \<Rightarrow> error + pystr list" where
  "str_list_field data name =
     (case map_of data name of
        None \<Rightarrow> Inr []
      | Some (PList xs) \<Rightarrow>
          (case those (map as_str xs) of
             Some ys \<Rightarrow> Inr ys
           | None \<Rightarrow> Inl (ConstructionError name))
      | Some _ \<Rightarrow> Inl (ConstructionError name))"

text \<open>
  An item of a \<^verbatim>\<open>list[Command]\<close>: a mapping is bound to a \<^verbatim>\<open>Command\<close> as it is,
  a \<^verbatim>\<open>Command\<close> is kept, anything else is no instance of the type.
\<close>

definition build_Command :: "pydata \<Rightarrow> Command option" where
  "build_Command x =
     (case x of
        PCommand c \<Rightarrow> Some c
      | PDict d \<Rightarrow> (case dacite_Command d of Inr c \<Rightarrow> Some c | Inl e \<Rightarrow> None)
      | _ \<Rightarrow> None)"

definition commands_field :: "pydata dict \<Rightarrow> pystr \<Rightarrow> error + Command list" where
  "commands_field data name =
     (case map_of data name of
        None \<Rightarrow> Inr []
      | Some (PList xs) \<Rightarrow>
          (case those (map build_Command xs) of
             Some cs \<Rightarrow> Inr cs
           | None \<Rightarrow> Inl (ConstructionError name))
      | Some _ \<Rightarrow> Inl (ConstructionError name))"

text \<open>A field of type \<^verbatim>\<open>Dict[str, str]\<close>, an empty mapping by default.\<close>

definition str_dict_field :: "pydata dict \<Rightarrow> pystr \<Rightarrow> error + pystr dict" where
  "str_dict_field data name =
     (case map_of data name of
        None \<Rightarrow> Inr []
      | Some (PDict d) \<Rightarrow>
          (case those (map (\<lambda>(k, v). map_option (Pair k) (as_str v)) d) of
             Some ys \<Rightarrow> Inr ys
           | None \<Rightarrow> Inl (ConstructionError name))
      | Some _ \<Rightarrow> Inl (ConstructionError name))"

definition dacite_Task :: "pydata dict \<Rightarrow> error + Task" where
  "dacite_Task data =
     bind (str_field data (str ''name'')) (\<lambda>v1.
     bind (str_field data (str ''shell'')) (\<lambda>v2.
     bind (str_list_field data (str ''requires'')) (\<lambda>v3.
     bind (str_list_field data (str ''before'')) (\<lambda>v4.
     bind (bool_field data (str ''echo'') False) (\<lambda>v5.
     bind (scalar_field data (str ''timeout'') T_int True (Some PNone)) (\<lambda>v6.
     bind (bool_field data (str ''fail_fast'') True) (\<lambda>v7.
     bind (bool_field data (str ''check_exit_code'') True) (\<lambda>v8.
     bind (bool_field data (str ''should_fail'') False) (\<lambda>v9.
     bind (scalar_field data (str ''sleep'') T_int False (Some (PInt 0))) (\<lambda>v10.
     bind (bool_field data (str ''disabled'') False) (\<lambda>v11.
     bind (commands_field data (str ''commands'')) (\<lambda>v12.
     bind (str_dict_field data (str ''vars'')) (\<lambda>v13.
     Inr \<lparr>task_name = v1, task_shell = v2, task_requires = v3, task_before = v4,
          task_echo = v5, task_timeout = v6, task_fail_fast = v7,
          task_check_exit_code = v8, task_should_fail = v9, task_sleep = v10,
          task_disabled = v11, task_commands = v12, task_vars = v13\<rparr>)))))))))))))"

subsection \<open>Loading a task\<close>

definition name_map_Task :: "pystr \<Rightarrow> pystr" where
  "name_map_Task name =
     (if name = str ''fail-fast'' then str ''fail_fast''
      else if name = str ''check-exit-code'' then str ''check_exit_code''
      else if name = str ''should-fail'' then str ''should_fail''
      else name)"

definition Task_load_from_dict :: "pydata dict \<Rightarrow> error + Task" where
  "Task_load_from_dict dict = dacite_Task (rename_keys name_map_Task dict)"

subsection \<open>Records that bind\<close>













text \<open>
  What a \<^verbatim>\<open>for\<close> goes through: the items of a list, the characters of a \<^verbatim>\<open>str\<close>,
  the keys of a mapping. Nothing else here can be iterated.
\<close>

fun iterate :: "pydata \<Rightarrow> error + pydata list" where
  "iterate (PList xs) = Inr xs"
| "iterate (Val (PStr s)) = Inr (map (\<lambda>c. Val (PStr [c])) s)"
| "iterate (PDict d) = Inr (map (\<lambda>(k, v). Val (PStr k)) d)"
| "iterate _ = Inl TypeError"

fun load_commands :: "pydata list \<Rightarrow> error + Command list" where
  "load_commands [] = Inr []"
| "load_commands (com # coms) =
     bind (Command_load_from_dict com) (\<lambda>c.
     bind (load_commands coms) (\<lambda>cs. Inr (c # cs)))"

text \<open>
  \<^verbatim>\<open>Task.load_from_yaml\<close>. The parser \<^verbatim>\<open>yaml.safe_load\<close> is a parameter: it
  raises or returns a value.
\<close>

definition load_from_yaml ::
  "(pystr \<Rightarrow> error + pydata) \<Rightarrow> pystr \<Rightarrow> pydata dict \<Rightarrow> error + Task" where
  "load_from_yaml safe_load yaml_string overrides =
     bind (safe_load yaml_string) (\<lambda>loaded.
       case loaded of
         PDict d \<Rightarrow>
           (let obj = dict_or d overrides in
            if map_of obj (str ''name'') = None then
              error (str ''Task description file must at least contain a '' @ [39] @
                     str ''name'' @ [39] @ str '' field'')
            else
              bind (iterate (case map_of obj (str ''commands'') of
                               None \<Rightarrow> PList [] | Some v \<Rightarrow> v)) (\<lambda>coms.
              bind (load_commands coms) (\<lambda>cs.
              Task_load_from_dict
                (AList.update (str ''commands'') (PList (map PCommand cs)) obj))))
       | _ \<Rightarrow> Inl YAMLError)"

text \<open>A parser that gives the same value for every text, for the examples below.\<close>

definition parsed :: "pydata \<Rightarrow> pystr \<Rightarrow> error + pydata" where
  "parsed v text = Inr v"

text \<open>
  \<^verbatim>\<open>str.splitlines\<close>: a line ends at a line boundary, with \<^verbatim>\<open>\r\n\<close> as one; the
  boundaries are not kept, and no empty line follows the last boundary.
\<close>

definition is_linebreak :: "nat \<Rightarrow> bool" where
  "is_linebreak c \<longleftrightarrow>
     c = 10 \<or> c = 11 \<or> c = 12 \<or> c = 13 \<or> c = 28 \<or> c = 29 \<or> c = 30 \<or> c = 133 \<or>
     c = 8232 \<or> c = 8233"

fun splitlines_from :: "pystr \<Rightarrow> pystr \<Rightarrow> pystr list" where
  "splitlines_from line [] = (if line = [] then [] else [line])"
| "splitlines_from line [c] = (if is_linebreak c then [line] else [line @ [c]])"
| "splitlines_from line (c # d # cs) =
     (if c = 13 \<and> d = 10 then line # splitlines_from [] cs
      else if is_linebreak c then line # splitlines_from [] (d # cs)
      else splitlines_from (line @ [c]) (d # cs))"

definition splitlines :: "pystr \<Rightarrow> pystr list" where
  "splitlines s = splitlines_from [] s"

definition from_multiline_string :: "pystr \<Rightarrow> pystr \<Rightarrow> pydata dict \<Rightarrow> error + Task" where
  "from_multiline_string name string params =
     Task_load_from_dict
       (AList.update (str ''commands'')
          (PList (map (\<lambda>com. PCommand (Command_init com)) (splitlines string)))
          (AList.update (str ''name'') (Val (PStr name)) params))"

subsection \<open>Resolving the variables of a task\<close>

fun apply_vars_commands :: "Command list \<Rightarrow> pystr dict \<Rightarrow> error + Command list" where
  "apply_vars_commands [] vars = Inr []"
| "apply_vars_commands (c # cs) vars =
     bind (Command_apply_vars c vars) (\<lambda>c'.
     bind (apply_vars_commands cs vars) (\<lambda>cs'. Inr (c' # cs')))"

definition Task_apply_vars :: "Task \<Rightarrow> pystr dict \<Rightarrow> pystr dict \<Rightarrow> error + Task" where
  "Task_apply_vars self default_vars override_variables =
     bind (apply_vars_commands (task_commands self)
             (dict_or (dict_or default_vars (task_vars self)) override_variables))
       (\<lambda>cs. Inr (self\<lparr>task_commands := cs\<rparr>))"

definition enable :: "Task \<Rightarrow> bool \<Rightarrow> Task" where
  "enable self val = self\<lparr>task_disabled := \<not> val\<rparr>"



section \<open>Properties of the placeholder pattern\<close>

lemma name_char_punct [simp]: "\<not> name_char 125" "\<not> name_char 123" "\<not> name_char 36"
  by (simp_all add: name_char_def is_space_def)

text \<open>A match is a placeholder at the head of the text, its name made of class characters.\<close>

lemma match_here_SomeD:
  assumes "match_here s = Some (name, rest)"
  shows "s = placeholder name @ rest \<and> list_all name_char name"
proof (cases s rule: match_here.cases)
  case (1 a b c t)
  with assms obtain d e where abc: "a = 36" "b = 123" "c = 123"
    and dw: "dropWhile name_char t = d # e # rest" and de: "d = 125" "e = 125"
    and nm: "name = takeWhile name_char t"
    by (auto split: if_splits list.splits)
  have "t = takeWhile name_char t @ dropWhile name_char t" by simp
  with dw de nm have "t = name @ [125, 125] @ rest" by simp
  moreover have "list_all name_char name"
    unfolding nm list_all_iff by (auto dest: set_takeWhileD)
  ultimately show ?thesis using 1 abc by (simp add: placeholder_def)
next
  case "2_1" with assms show ?thesis by simp
next
  case "2_2" with assms show ?thesis by simp
next
  case "2_3" with assms show ?thesis by simp
qed

text \<open>Every placeholder at the head of a text is matched, with its whole name.\<close>

lemma match_here_placeholder:
  assumes "list_all name_char name"
  shows "match_here (placeholder name @ rest) = Some (name, rest)"
proof -
  have tw: "takeWhile name_char (name @ 125 # 125 # rest) = name"
    using assms by (simp add: takeWhile_append2 list_all_iff)
  have dw: "dropWhile name_char (name @ 125 # 125 # rest) = 125 # 125 # rest"
    using assms by (simp add: dropWhile_append2 list_all_iff)
  show ?thesis by (simp add: placeholder_def tw dw)
qed

lemma placeholder_no_dollar:
  "list_all name_char name \<Longrightarrow> 36 \<notin> set (tl (placeholder name))"
  by (auto simp: placeholder_def list_all_iff)

lemma append_eq_skip:
  assumes "xs @ y # ys = m @ rest" and "y \<notin> set m"
  shows "\<exists>zs. xs = m @ zs \<and> rest = zs @ y # ys"
  using assms
proof (induction m arbitrary: xs)
  case Nil
  then show ?case by simp
next
  case (Cons c m)
  then obtain xs' where "xs = c # xs'" by (cases xs) auto
  with Cons show ?case by auto
qed

text \<open>
  No match hides a placeholder: a match holds one \<^verbatim>\<open>$\<close>, its first character, so
  it ends before the next placeholder starts.
\<close>

lemma finditer_occurrence:
  assumes "list_all name_char name"
  shows "(placeholder name, name) \<in> set (finditer (a @ placeholder name @ b))"
proof (induction "length a" arbitrary: a rule: less_induct)
  case less
  show ?case
  proof (cases a)
    case Nil
    then show ?thesis using match_here_placeholder [OF assms, of b]
      by (simp add: placeholder_def)
  next
    case (Cons c a')
    show ?thesis
    proof (cases "match_here (a @ placeholder name @ b)")
      case None
      then show ?thesis using Cons less [of a'] by simp
    next
      case (Some r)
      obtain nm rest where r: "r = (nm, rest)" by (cases r)
      from Some r match_here_SomeD
      have eq: "a @ placeholder name @ b = placeholder nm @ rest"
        and nc: "list_all name_char nm"
        by blast+
      from eq Cons
      have "a' @ 36 # (tl (placeholder name) @ b) = tl (placeholder nm) @ rest"
        by (simp add: placeholder_def)
      from append_eq_skip [OF this placeholder_no_dollar [OF nc]]
      obtain zs where zs: "a' = tl (placeholder nm) @ zs"
        "rest = zs @ 36 # (tl (placeholder name) @ b)"
        by blast
      then have "rest = zs @ placeholder name @ b" by (simp add: placeholder_def)
      moreover have "length zs < length a" using zs Cons by simp
      ultimately have "(placeholder name, name) \<in> set (finditer rest)"
        using less by blast
      then show ?thesis using Some r Cons by simp
    qed
  qed
qed

text \<open>The loop stops at the first match whose name is no key.\<close>

lemma apply_vars_loop_missing:
  assumes "(p, n) \<in> set ms" and "map_of vars n = None"
  shows "\<exists>m. m \<in> snd ` set ms \<and> map_of vars m = None \<and>
    apply_vars_loop ms vars cmd = error (str ''Variable '' @ m @ str '' not found!'')"
  using assms
proof (induction ms arbitrary: cmd)
  case Nil
  then show ?case by simp
next
  case (Cons x ms)
  obtain q k where x: "x = (q, k)" by (cases x)
  show ?case
  proof (cases "map_of vars k")
    case None
    then show ?thesis using x by (auto intro!: exI [of _ k])
  next
    case (Some v)
    with Cons.prems x have "(p, n) \<in> set ms" by auto
    from Cons.IH [OF this Cons.prems(2), of "replace cmd q v"] show ?thesis
      using Some x by auto
  qed
qed

subsection \<open>Replacing a placeholder\<close>

lemma replace_from_skip:
  "replace_from (length xs) (xs @ rest) old new = replace_from 0 rest old new"
  by (induction xs) simp_all

lemma replace_from_prefix:
  assumes "old \<noteq> []"
  shows "replace_from 0 (old @ rest) old new = new @ replace_from 0 rest old new"
proof -
  from assms obtain c cs where old: "old = c # cs" by (cases old) auto
  have "replace_from 0 (old @ rest) old new = new @ replace_from (length cs) (cs @ rest) old new"
    by (simp add: old)
  then show ?thesis by (simp add: replace_from_skip)
qed

lemma placeholder_not_Nil [simp]: "placeholder n \<noteq> []"
  by (simp add: placeholder_def)

lemma take_placeholder_match:
  assumes "list_all name_char n" and "take (length (placeholder n)) s = placeholder n"
  shows "match_here s = Some (n, drop (length (placeholder n)) s)"
proof -
  have "s = placeholder n @ drop (length (placeholder n)) s"
    using assms(2) by (metis append_take_drop_id)
  then show ?thesis using match_here_placeholder [OF assms(1)] by metis
qed

lemma replace_from_no_match:
  assumes "list_all name_char n"
  shows "finditer s = [] \<Longrightarrow> replace_from 0 s (placeholder n) v = s"
proof (induction s)
  case Nil
  then show ?case by simp
next
  case (Cons c cs)
  from Cons.prems have none: "match_here (c # cs) = None"
    by (auto split: option.splits)
  with Cons.prems have "finditer cs = []" by simp
  moreover have "take (length (placeholder n)) (c # cs) \<noteq> placeholder n"
    using take_placeholder_match [OF assms] none by fastforce
  ultimately show ?case using Cons.IH by simp
qed

lemma finditer_members:
  "(p, n) \<in> set (finditer s) \<Longrightarrow> p = placeholder n \<and> list_all name_char n"
proof (induction s rule: finditer.induct)
  case 1
  then show ?case by simp
next
  case (2 c cs)
  show ?case
  proof (cases "match_here (c # cs)")
    case None
    with 2 show ?thesis by simp
  next
    case (Some r)
    obtain nm rest where r: "r = (nm, rest)" by (cases r)
    from match_here_SomeD Some r have nc: "list_all name_char nm" by blast
    from 2 Some r nc show ?thesis by auto
  qed
qed

lemma replace_single_match:
  "finditer s = [(p, n)] \<Longrightarrow>
   \<exists>pre post. s = pre @ p @ post \<and> replace s p v = pre @ v @ post"
proof (induction s)
  case Nil
  then show ?case by simp
next
  case (Cons c cs)
  show ?case
  proof (cases "match_here (c # cs)")
    case None
    with Cons.prems have f: "finditer cs = [(p, n)]" by simp
    from Cons.IH [OF f] obtain pre post where
      pp: "cs = pre @ p @ post" "replace cs p v = pre @ v @ post" by blast
    have "(p, n) \<in> set (finditer cs)" using f by simp
    then have pn: "p = placeholder n \<and> list_all name_char n" by (rule finditer_members)
    have "take (length p) (c # cs) \<noteq> p"
      using take_placeholder_match [of n "c # cs"] None pn by fastforce
    then have "replace (c # cs) p v = c # replace cs p v"
      using pn by (simp add: replace_def)
    then show ?thesis using pp by (intro exI [of _ "c # pre"] exI [of _ post]) simp
  next
    case (Some r)
    obtain nm rest where r: "r = (nm, rest)" by (cases r)
    with Some Cons.prems have e: "p = placeholder nm" "n = nm" "finditer rest = []" by auto
    from match_here_SomeD Some r have s: "c # cs = placeholder nm @ rest"
      and nc: "list_all name_char nm" by blast+
    have "replace (c # cs) p v = v @ rest"
      unfolding s e using replace_from_no_match [OF nc e(3)]
      by (simp add: replace_def replace_from_prefix)
    then show ?thesis using s e by (intro exI [of _ "[]"] exI [of _ rest]) simp
  qed
qed

lemma apply_vars_loop_succeeds_iff:
  "(\<exists>r. apply_vars_loop ms vars cmd = Inr r) \<longleftrightarrow> (\<forall>n \<in> snd ` set ms. map_of vars n \<noteq> None)"
proof (induction ms arbitrary: cmd)
  case Nil
  then show ?case by simp
next
  case (Cons x ms)
  obtain q k where x: "x = (q, k)" by (cases x)
  show ?case
  proof (cases "map_of vars k")
    case None
    then show ?thesis using x by (auto simp: error_def)
  next
    case (Some v)
    then show ?thesis using x Cons.IH [of "replace cmd q v"] by auto
  qed
qed

section \<open>Properties of the fields and the scopes\<close>

text \<open>Evaluating the model on a concrete command.\<close>

lemmas ev = str_def placeholder_def name_char_def is_space_def replace_def
  Command_apply_vars_def Command_init_def error_def

lemma getitem_field: "k \<in> field_names \<Longrightarrow> \<exists>v. getitem self k = Inr v"
  by (auto simp: field_names_def getitem_def)

lemma getitem_setitem:
  "k \<in> field_names \<Longrightarrow> getitem (setitem self k v) k' = (if k' = k then Inr v else getitem self k')"
  unfolding field_names_def getitem_def setitem_def
  by (elim insertE emptyE; simp add: str_def)

lemma apply_task_properties_from_result:
  assumes "distinct keys" and "set keys \<subseteq> field_names"
    and "it + length keys \<le> length defaults"
    and "it + length keys \<le> length task_values"
  shows "\<exists>r. apply_task_properties_from it keys defaults task_values self = Inr r \<and>
    (\<forall>j<length keys. \<exists>own. getitem self (keys ! j) = Inr own \<and>
       getitem r (keys ! j) =
         Inr (if py_eq own (defaults ! (it + j)) then task_values ! (it + j) else own)) \<and>
    (\<forall>k. k \<notin> set keys \<longrightarrow> getitem r k = getitem self k)"
  using assms
proof (induction keys arbitrary: it self)
  case Nil
  then show ?case by simp
next
  case (Cons key keys)
  from Cons.prems have kf: "key \<in> field_names" by simp
  then obtain own where own: "getitem self key = Inr own" using getitem_field by blast
  define v where "v = (if py_eq own (defaults ! it) then task_values ! it else own)"
  define self' where "self' = setitem self key v"
  from Cons.prems have lens: "it < length defaults" "it < length task_values" by simp_all
  have step: "apply_task_properties_from it (key # keys) defaults task_values self =
      apply_task_properties_from (Suc it) keys defaults task_values self'"
    using own lens by (simp add: index_def v_def self'_def)
  from Cons.prems have p: "distinct keys" "set keys \<subseteq> field_names"
    "Suc it + length keys \<le> length defaults" "Suc it + length keys \<le> length task_values"
    by simp_all
  from Cons.IH [OF p, of self'] obtain r where
    r: "apply_task_properties_from (Suc it) keys defaults task_values self' = Inr r"
    and rj: "\<And>j. j < length keys \<Longrightarrow> \<exists>own. getitem self' (keys ! j) = Inr own \<and>
       getitem r (keys ! j) =
         Inr (if py_eq own (defaults ! (Suc it + j)) then task_values ! (Suc it + j) else own)"
    and rk: "\<And>k. k \<notin> set keys \<Longrightarrow> getitem r k = getitem self' k"
    by blast
  have notin: "key \<notin> set keys" using Cons.prems by simp
  have g': "\<And>k. getitem self' k = (if k = key then Inr v else getitem self k)"
    unfolding self'_def using kf by (rule getitem_setitem)
  have "\<exists>own. getitem self ((key # keys) ! j) = Inr own \<and>
       getitem r ((key # keys) ! j) =
         Inr (if py_eq own (defaults ! (it + j)) then task_values ! (it + j) else own)"
    if "j < length (key # keys)" for j
  proof (cases j)
    case 0
    then show ?thesis using own rk [OF notin] g' by (simp add: v_def)
  next
    case (Suc i)
    with that have i: "i < length keys" by simp
    then have "keys ! i \<noteq> key" using notin by (metis nth_mem)
    with rj [OF i] g' obtain w where w: "getitem self (keys ! i) = Inr w"
      "getitem r (keys ! i) =
         Inr (if py_eq w (defaults ! (Suc it + i)) then task_values ! (Suc it + i) else w)"
      by auto
    show ?thesis unfolding Suc using w by (intro exI [of _ w]) simp
  qed
  moreover have "getitem r k = getitem self k" if "k \<notin> set (key # keys)" for k
    using that rk [of k] g' by simp
  ultimately show ?case using step r by simp
qed


lemma apply_vars_loop_cong:
  "map_of v1 = map_of v2 \<Longrightarrow> apply_vars_loop ms v1 cmd = apply_vars_loop ms v2 cmd"
  by (induction ms v1 cmd rule: apply_vars_loop.induct) (auto split: option.splits)

lemma Command_apply_vars_cong:
  "map_of v1 = map_of v2 \<Longrightarrow> Command_apply_vars c v1 = Command_apply_vars c v2"
  by (simp add: Command_apply_vars_def apply_vars_loop_cong [of v1 v2] split: pyval.splits)

lemma apply_vars_commands_cong:
  "map_of v1 = map_of v2 \<Longrightarrow> apply_vars_commands cs v1 = apply_vars_commands cs v2"
  by (induction cs) (simp_all add: Command_apply_vars_cong [of v1 v2])

subsection \<open>What resolution returns\<close>





subsection \<open>The variables of a whole task\<close>

text \<open>
  Resolution returns or ends in the fatal error, so a task with a command whose text
  holds a placeholder with no value in the merged scope is not resolved at all.
\<close>

lemma apply_vars_loop_outcome:
  "(\<exists>r. apply_vars_loop ms vars cmd = Inr r) \<or>
   (\<exists>m. apply_vars_loop ms vars cmd = Inl (Fatal (str ''Variable '' @ m @ str '' not found!'')))"
proof (induction ms arbitrary: cmd)
  case Nil
  then show ?case by simp
next
  case (Cons x ms)
  obtain q k where x: "x = (q, k)" by (cases x)
  show ?case
  proof (cases "map_of vars k")
    case None
    then show ?thesis using x by (auto simp: error_def)
  next
    case (Some v)
    then show ?thesis using x Cons.IH [of "replace cmd q v"] by simp
  qed
qed

lemma Command_apply_vars_outcome:
  assumes "command c = PStr s"
  shows "(\<exists>r. Command_apply_vars c vars = Inr r) \<or>
   (\<exists>m. Command_apply_vars c vars = Inl (Fatal (str ''Variable '' @ m @ str '' not found!'')))"
  using apply_vars_loop_outcome [of "finditer s" vars s] assms
  by (auto simp: Command_apply_vars_def)

lemma Command_apply_vars_missing:
  assumes "command c = PStr (a @ placeholder name @ b)"
    and "list_all name_char name" and "map_of vars name = None"
  shows "\<exists>m. Command_apply_vars c vars = Inl (Fatal (str ''Variable '' @ m @ str '' not found!''))"
proof -
  have "(placeholder name, name) \<in> set (finditer (a @ placeholder name @ b))"
    using assms(2) by (rule finditer_occurrence)
  from apply_vars_loop_missing [OF this assms(3), of "a @ placeholder name @ b"]
  show ?thesis using assms(1) by (auto simp: Command_apply_vars_def error_def)
qed

lemma Task_apply_vars_unknown_variable_is_fatal:
  assumes "\<forall>c \<in> set (task_commands self). \<exists>s. command c = PStr s"
    and "c \<in> set (task_commands self)"
    and "command c = PStr (a @ placeholder name @ b)"
    and "list_all name_char name"
    and "map_of (dict_or (dict_or default_vars (task_vars self)) override_variables) name = None"
  shows "\<exists>m. Task_apply_vars self default_vars override_variables =
    Inl (Fatal (str ''Variable '' @ m @ str '' not found!''))"
proof -
  let ?scope = "dict_or (dict_or default_vars (task_vars self)) override_variables"
  have "\<exists>m. apply_vars_commands cs ?scope =
      Inl (Fatal (str ''Variable '' @ m @ str '' not found!''))"
    if "\<forall>c \<in> set cs. \<exists>s. command c = PStr s" and "c \<in> set cs" for cs
    using that
  proof (induction cs)
    case Nil
    then show ?case by simp
  next
    case (Cons x cs)
    from Cons.prems(1) obtain s where s: "command x = PStr s" by auto
    from Command_apply_vars_outcome [OF s, of ?scope] show ?case
    proof
      assume "\<exists>m. Command_apply_vars x ?scope =
        Inl (Fatal (str ''Variable '' @ m @ str '' not found!''))"
      then show ?thesis by (auto simp: bind_def)
    next
      assume "\<exists>r. Command_apply_vars x ?scope = Inr r"
      then obtain r where r: "Command_apply_vars x ?scope = Inr r" ..
      have "c \<noteq> x"
        using r Command_apply_vars_missing [OF assms(3,4,5)] by auto
      with Cons.prems have "c \<in> set cs" "\<forall>c \<in> set cs. \<exists>s. command c = PStr s" by auto
      from Cons.IH [OF this(2,1)] show ?thesis using r by (auto simp: bind_def)
    qed
  qed
  from this [OF assms(1,2)] show ?thesis by (auto simp: Task_apply_vars_def bind_def)
qed

section \<open>Properties of the loaders\<close>

lemmas ev2 = ev bind_def dacite_Command_def scalar_field_def rename_keys_def
  name_map_Command_def Command_load_from_dict_def

lemma map_of_fold_update:
  "map_of (fold (\<lambda>(k, v). AList.update (f k) v) d acc) =
     map_of acc ++ map_of (rev (map (\<lambda>(k, v). (f k, v)) d))"
proof (induction d arbitrary: acc)
  case Nil
  then show ?case by simp
next
  case (Cons x d)
  obtain k v where x: "x = (k, v)" by (cases x)
  show ?case
    by (simp add: x Cons.IH AList.update_conv' map_add_upd_left flip: map_add_assoc)
      (simp add: map_add_def fun_eq_iff split: option.splits)
qed

lemma map_of_rename_keys:
  "map_of (rename_keys f d) = map_of (rev (map (\<lambda>(k, v). (f k, v)) d))"
  by (simp add: rename_keys_def map_of_fold_update)








lemma map_of_all_same:
  assumes "key \<in> fst ` set xs" and "\<And>b. (key, b) \<in> set xs \<Longrightarrow> b = v"
  shows "map_of xs key = Some v"
  using assms by (induction xs) (auto split: if_splits)

lemma map_of_rename_keys_update_same:
  assumes "distinct (map fst d)" and "\<And>k'. f k' = f c \<Longrightarrow> k' = c"
  shows "map_of (rename_keys f (AList.update c v d)) (f c) = Some v"
proof -
  let ?d = "AList.update c v d"
  have dist: "distinct (map fst ?d)" using assms(1) by (rule AList.distinct_update)
  have mem: "(c, v) \<in> set ?d"
    by (induction d) auto
  have "(f c, b) \<in> set (rev (map (\<lambda>(k, v). (f k, v)) ?d)) \<Longrightarrow> b = v" for b
  proof -
    assume "(f c, b) \<in> set (rev (map (\<lambda>(k, v). (f k, v)) ?d))"
    then obtain k' where "(k', b) \<in> set ?d" "f k' = f c" by auto
    with assms(2) have "(c, b) \<in> set ?d" by auto
    with mem dist show "b = v" by (meson eq_key_imp_eq_value)
  qed
  moreover have "f c \<in> fst ` set (rev (map (\<lambda>(k, v). (f k, v)) ?d))"
    using mem by force
  ultimately show ?thesis unfolding map_of_rename_keys by (rule map_of_all_same [rotated])
qed

lemma map_of_rename_keys_update_other:
  assumes "f c \<noteq> k"
  shows "map_of (rename_keys f (AList.update c v d)) k = map_of (rename_keys f d) k"
  unfolding map_of_rename_keys using assms
  by (induction d) (auto simp: map_add_def split: option.splits)



lemmas ev3 = ev2 dacite_Task_def str_field_def bool_field_def str_list_field_def
  commands_field_def str_dict_field_def build_Command_def as_str_def name_map_Task_def
  Task_load_from_dict_def load_from_yaml_def dict_or_def splitlines_def is_linebreak_def
  from_multiline_string_def

lemma dacite_Task_Inr_iff:
  "dacite_Task data = Inr t \<longleftrightarrow>
     str_field data (str ''name'') = Inr (task_name t) \<and>
     str_field data (str ''shell'') = Inr (task_shell t) \<and>
     str_list_field data (str ''requires'') = Inr (task_requires t) \<and>
     str_list_field data (str ''before'') = Inr (task_before t) \<and>
     bool_field data (str ''echo'') False = Inr (task_echo t) \<and>
     scalar_field data (str ''timeout'') T_int True (Some PNone) = Inr (task_timeout t) \<and>
     bool_field data (str ''fail_fast'') True = Inr (task_fail_fast t) \<and>
     bool_field data (str ''check_exit_code'') True = Inr (task_check_exit_code t) \<and>
     bool_field data (str ''should_fail'') False = Inr (task_should_fail t) \<and>
     scalar_field data (str ''sleep'') T_int False (Some (PInt 0)) = Inr (task_sleep t) \<and>
     bool_field data (str ''disabled'') False = Inr (task_disabled t) \<and>
     commands_field data (str ''commands'') = Inr (task_commands t) \<and>
     str_dict_field data (str ''vars'') = Inr (task_vars t)"
  by (cases t) (auto simp: dacite_Task_def bind_def split: sum.splits)

lemma those_build_Command:
  "those (map (build_Command \<circ> PCommand) cs) = Some cs"
  by (induction cs) (simp_all add: build_Command_def)

lemma name_map_Task_commands:
  "name_map_Task (str ''commands'') = str ''commands''"
  "name_map_Task k = str ''commands'' \<Longrightarrow> k = str ''commands''"
  "name_map_Task (str ''name'') = str ''name''"
  "name_map_Task k = str ''name'' \<Longrightarrow> k = str ''name''"
  by (simp_all add: name_map_Task_def str_def split: if_splits)

lemma Task_load_from_dict_commands:
  assumes "distinct (map fst d)"
    and "Task_load_from_dict (AList.update (str ''commands'') (PList (map PCommand cs)) d) = Inr t"
  shows "task_commands t = cs"
proof -
  let ?data = "rename_keys name_map_Task (AList.update (str ''commands'') (PList (map PCommand cs)) d)"
  have "map_of ?data (name_map_Task (str ''commands'')) = Some (PList (map PCommand cs))"
    using assms(1)
    by (rule map_of_rename_keys_update_same) (simp add: name_map_Task_commands)
  then have "commands_field ?data (str ''commands'') = Inr cs"
    by (simp add: commands_field_def name_map_Task_commands those_build_Command)
  moreover from assms(2) have "commands_field ?data (str ''commands'') = Inr (task_commands t)"
    by (simp add: Task_load_from_dict_def dacite_Task_Inr_iff)
  ultimately show ?thesis by simp
qed

lemma map_of_rename_keys_None:
  "map_of (rename_keys f d) k = None \<longleftrightarrow> k \<notin> f ` fst ` set d"
  unfolding map_of_rename_keys by (force simp: map_of_eq_None_iff)

lemma name_map_Task_shell:
  "name_map_Task k = str ''shell'' \<longleftrightarrow> k = str ''shell''"
  by (simp add: name_map_Task_def str_def)

lemma shell_not_renamed:
  assumes "str ''shell'' \<notin> A"
  shows "str ''shell'' \<notin> name_map_Task ` A"
proof
  assume "str ''shell'' \<in> name_map_Task ` A"
  then obtain k where k: "k \<in> A" and e: "str ''shell'' = name_map_Task k" ..
  from e have "name_map_Task k = str ''shell''" by (rule sym)
  then have "k = str ''shell''" by (simp only: name_map_Task_shell)
  with k assms show False by simp
qed

lemma distinct_dict_or:
  "distinct (map fst a) \<Longrightarrow> distinct (map fst (dict_or a b))"
  unfolding dict_or_def
  by (induction b arbitrary: a) (auto simp: AList.distinct_update)

lemma load_commands_Inr_iff:
  "load_commands coms = Inr cs \<longleftrightarrow>
     list_all2 (\<lambda>com c. Command_load_from_dict com = Inr c) coms cs"
proof (induction coms arbitrary: cs)
  case Nil
  then show ?case by auto
next
  case (Cons com coms)
  show ?case
  proof (cases cs)
    case Nil
    then show ?thesis by (auto simp: bind_def split: sum.splits)
  next
    case (Cons a list)
    have "load_commands (com # coms) = Inr (a # list) \<longleftrightarrow>
        Command_load_from_dict com = Inr a \<and> load_commands coms = Inr list"
      by (auto simp: bind_def split: sum.splits)
    then show ?thesis using Cons Cons.IH [of list] by simp
  qed
qed

subsection \<open>When binding succeeds\<close>


















section \<open>The claims\<close>

text \<open>
  C1. A command whose text holds a placeholder \<^verbatim>\<open>${{name}}\<close> with a name that is no
  key of the variables it is resolved against is not resolved: \<^verbatim>\<open>Command.apply_vars\<close>
  ends in the fatal error, whose message names a variable of the text that is no key.
  No command text comes back, with the placeholder left in place or dropped.
\<close>

theorem apply_vars_unknown_variable_is_fatal:
  assumes "command self = PStr (a @ placeholder name @ b)"
    and "list_all name_char name"
    and "map_of vars name = None"
  shows "\<exists>m. map_of vars m = None \<and>
    m \<in> snd ` set (finditer (a @ placeholder name @ b)) \<and>
    Command_apply_vars self vars = Inl (Fatal (str ''Variable '' @ m @ str '' not found!''))"
proof -
  let ?s = "a @ placeholder name @ b"
  have "(placeholder name, name) \<in> set (finditer ?s)"
    using assms(2) by (rule finditer_occurrence)
  from apply_vars_loop_missing [OF this assms(3), of ?s]
  obtain m where m: "m \<in> snd ` set (finditer ?s)" "map_of vars m = None"
    "apply_vars_loop (finditer ?s) vars ?s = error (str ''Variable '' @ m @ str '' not found!'')"
    by blast
  then have "Command_apply_vars self vars =
      Inl (Fatal (str ''Variable '' @ m @ str '' not found!''))"
    using assms(1) by (simp add: Command_apply_vars_def error_def)
  with m show ?thesis by blast
qed

theorem apply_vars_unknown_variable_is_fatal_witness:
  "command (Command_init (str ''echo ${{X}}'')) = PStr (str ''echo '' @ placeholder (str ''X'') @ [])
   \<and> list_all name_char (str ''X'')
   \<and> map_of ([] :: pystr dict) (str ''X'') = None
   \<and> Command_apply_vars (Command_init (str ''echo ${{X}}'')) [] =
       Inl (Fatal (str ''Variable X not found!''))"
proof -
  have h1: "command (Command_init (str ''echo ${{X}}'')) =
      PStr (str ''echo '' @ placeholder (str ''X'') @ [])"
    by (simp add: Command_init_def str_def placeholder_def)
  have h2: "list_all name_char (str ''X'')"
    by (simp add: str_def name_char_def is_space_def)
  have h3: "map_of ([] :: pystr dict) (str ''X'') = None" by simp
  from apply_vars_unknown_variable_is_fatal [OF h1 h2 h3]
  obtain m where m: "m \<in> snd ` set (finditer (str ''echo '' @ placeholder (str ''X'') @ []))"
    and r: "Command_apply_vars (Command_init (str ''echo ${{X}}'')) [] =
      Inl (Fatal (str ''Variable '' @ m @ str '' not found!''))"
    by blast
  have "finditer (str ''echo '' @ placeholder (str ''X'') @ []) = [(placeholder (str ''X''), str ''X'')]"
    by (simp add: str_def placeholder_def name_char_def is_space_def)
  with m have "m = str ''X''" by simp
  with r have "Command_apply_vars (Command_init (str ''echo ${{X}}'')) [] =
      Inl (Fatal (str ''Variable X not found!''))"
    by (simp add: str_def)
  with h1 h2 h3 show ?thesis by blast
qed



text \<open>
  C3. After \<^verbatim>\<open>_apply_task_properties\<close>, each field named by a key holds the value of
  the task when the command's own value equals the unset marker given for the key
  (Python's \<^verbatim>\<open>==\<close>), and the command's own value otherwise; the other fields are
  as they were. In the example the command sets \<^verbatim>\<open>echo\<close> to \<^verbatim>\<open>False\<close>, which
  differs from the marker \<^verbatim>\<open>None\<close> and is kept against the task's \<^verbatim>\<open>True\<close>.
\<close>

theorem apply_task_properties_inherits_unless_overridden:
  assumes "distinct keys" and "set keys \<subseteq> field_names"
    and "length keys \<le> length defaults"
    and "length keys \<le> length task_values"
  shows "\<exists>r. apply_task_properties self keys defaults task_values = Inr r \<and>
    (\<forall>j<length keys. \<exists>own. getitem self (keys ! j) = Inr own \<and>
       getitem r (keys ! j) =
         Inr (if py_eq own (defaults ! j) then task_values ! j else own)) \<and>
    (\<forall>k. k \<notin> set keys \<longrightarrow> getitem r k = getitem self k)"
  using apply_task_properties_from_result [of keys 0 defaults task_values self] assms
  by (simp add: apply_task_properties_def split del: if_split cong: if_cong)

theorem apply_task_properties_inherits_unless_overridden_witness:
  "distinct [str ''echo'', str ''timeout'', str ''check_exit_code'', str ''should_fail'']
   \<and> set [str ''echo'', str ''timeout'', str ''check_exit_code'', str ''should_fail''] \<subseteq> field_names
   \<and> length [str ''echo'', str ''timeout'', str ''check_exit_code'', str ''should_fail'']
       \<le> length [PNone, PInt (- 1), PNone, PNone]
   \<and> length [str ''echo'', str ''timeout'', str ''check_exit_code'', str ''should_fail'']
       \<le> length [PBool True, PInt 30, PBool True, PBool False]
   \<and> (\<exists>r. apply_task_properties ((Command_init (str ''ls''))\<lparr>echo := PBool False\<rparr>)
            [str ''echo'', str ''timeout'', str ''check_exit_code'', str ''should_fail'']
            [PNone, PInt (- 1), PNone, PNone]
            [PBool True, PInt 30, PBool True, PBool False] = Inr r
        \<and> getitem r (str ''echo'') = Inr (PBool False)
        \<and> getitem r (str ''timeout'') = Inr (PInt 30)
        \<and> getitem r (str ''check_exit_code'') = Inr (PBool True)
        \<and> getitem r (str ''should_fail'') = Inr (PBool False)
        \<and> getitem r (str ''command'') = Inr (PStr (str ''ls'')))"
proof -
  let ?keys = "[str ''echo'', str ''timeout'', str ''check_exit_code'', str ''should_fail'']"
  let ?self = "(Command_init (str ''ls''))\<lparr>echo := PBool False\<rparr>"
  have h1: "distinct ?keys" by (simp add: str_def)
  have h2: "set ?keys \<subseteq> field_names" by (simp add: field_names_def)
  have h3: "length ?keys \<le> length [PNone, PInt (- 1), PNone, PNone]" by simp
  have h4: "length ?keys \<le> length [PBool True, PInt 30, PBool True, PBool False]" by simp
  from apply_task_properties_inherits_unless_overridden [OF h1 h2 h3 h4, of ?self]
  obtain r where r: "apply_task_properties ?self ?keys [PNone, PInt (- 1), PNone, PNone]
        [PBool True, PInt 30, PBool True, PBool False] = Inr r"
    and rj: "\<And>j. j < 4 \<Longrightarrow> \<exists>own. getitem ?self (?keys ! j) = Inr own \<and>
       getitem r (?keys ! j) =
         Inr (if py_eq own ([PNone, PInt (- 1), PNone, PNone] ! j)
              then [PBool True, PInt 30, PBool True, PBool False] ! j else own)"
    and rk: "\<And>k. k \<notin> set ?keys \<Longrightarrow> getitem r k = getitem ?self k"
    by auto
  have "getitem r (str ''echo'') = Inr (PBool False)"
    using rj [of 0] by (simp add: getitem_def Command_init_def str_def)
  moreover have "getitem r (str ''timeout'') = Inr (PInt 30)"
    using rj [of 1] by (simp add: getitem_def Command_init_def str_def)
  moreover have "getitem r (str ''check_exit_code'') = Inr (PBool True)"
    using rj [of 2] by (simp add: getitem_def Command_init_def str_def)
  moreover have "getitem r (str ''should_fail'') = Inr (PBool False)"
    using rj [of 3] by (simp add: getitem_def Command_init_def str_def)
  moreover have "getitem r (str ''command'') = Inr (PStr (str ''ls''))"
    using rk [of "str ''command''"] by (simp add: getitem_def Command_init_def str_def)
  ultimately show ?thesis using h1 h2 h3 h4 r by blast
qed


text \<open>
  C4. Where \<^verbatim>\<open>Task.from_multiline_string\<close> returns a task, the task has the given
  name and one \<^verbatim>\<open>Command\<close> for every line of \<^verbatim>\<open>string.splitlines()\<close>, in the
  order of the lines, which holds the text of the line and the defaults of every
  other field. Without a \<^verbatim>\<open>shell\<close> among the parameters no task is returned.
\<close>

theorem from_multiline_string_one_command_per_line:
  assumes "distinct (map fst params)"
  shows "(\<forall>t. from_multiline_string name string params = Inr t \<longrightarrow>
            task_name t = name \<and> task_commands t = map Command_init (splitlines string)) \<and>
         (map_of params (str ''shell'') = None \<longrightarrow>
            from_multiline_string name string params = Inl (MissingValueError (str ''shell'')))"
proof -
  let ?p1 = "AList.update (str ''name'') (Val (PStr name)) params"
  let ?cs = "map Command_init (splitlines string)"
  let ?p2 = "AList.update (str ''commands'') (PList (map PCommand ?cs)) ?p1"
  let ?data = "rename_keys name_map_Task ?p2"
  have d1: "distinct (map fst ?p1)" using assms(1) by (rule AList.distinct_update)
  have run: "from_multiline_string name string params = dacite_Task ?data"
    by (simp add: from_multiline_string_def Task_load_from_dict_def comp_def)
  have "map_of ?data (str ''name'') = map_of (rename_keys name_map_Task ?p1) (str ''name'')"
    by (rule map_of_rename_keys_update_other) (simp add: name_map_Task_def str_def)
  also have "\<dots> = map_of (rename_keys name_map_Task ?p1) (name_map_Task (str ''name''))"
    by (simp add: name_map_Task_commands)
  also have "\<dots> = Some (Val (PStr name))"
    using assms(1)
    by (rule map_of_rename_keys_update_same) (simp add: name_map_Task_commands)
  finally have nm: "str_field ?data (str ''name'') = Inr name"
    by (simp add: str_field_def as_str_def)
  have "task_name t = name \<and> task_commands t = ?cs"
    if t: "from_multiline_string name string params = Inr t" for t
  proof -
    from t have "Task_load_from_dict ?p2 = Inr t"
      by (simp add: from_multiline_string_def comp_def)
    from Task_load_from_dict_commands [OF d1 this] have "task_commands t = ?cs" .
    moreover from t run have "str_field ?data (str ''name'') = Inr (task_name t)"
      by (simp add: dacite_Task_Inr_iff)
    ultimately show ?thesis using nm by simp
  qed
  moreover have "from_multiline_string name string params = Inl (MissingValueError (str ''shell''))"
    if "map_of params (str ''shell'') = None"
  proof -
    from that have "str ''shell'' \<notin> fst ` set params"
      by (simp add: map_of_eq_None_iff)
    then have no: "str ''shell'' \<notin> fst ` set ?p2"
      by (simp add: AList.dom_update str_def)
    from no have "str ''shell'' \<notin> name_map_Task ` fst ` set ?p2"
      by (rule shell_not_renamed)
    then have "map_of ?data (str ''shell'') = None"
      by (simp only: map_of_rename_keys_None not_False_eq_True)
    then have "str_field ?data (str ''shell'') = Inl (MissingValueError (str ''shell''))"
      by (simp add: str_field_def)
    with nm show ?thesis unfolding run by (simp add: dacite_Task_def bind_def)
  qed
  ultimately show ?thesis by blast
qed

theorem from_multiline_string_one_command_per_line_witness:
  "distinct (map fst [(str ''shell'', Val (PStr (str ''target'')))])
   \<and> (\<exists>t. from_multiline_string (str ''t'') (str ''ls'' @ [10] @ str ''pwd'')
          [(str ''shell'', Val (PStr (str ''target'')))] = Inr t
        \<and> task_name t = str ''t''
        \<and> task_commands t = [Command_init (str ''ls''), Command_init (str ''pwd'')])
   \<and> map_of ([] :: pydata dict) (str ''shell'') = None
   \<and> from_multiline_string (str ''t'') (str ''ls'') [] = Inl (MissingValueError (str ''shell''))"
proof -
  let ?params = "[(str ''shell'', Val (PStr (str ''target'')))]"
  let ?text = "str ''ls'' @ [10] @ str ''pwd''"
  have h1: "distinct (map fst ?params)" by simp
  obtain t where t: "from_multiline_string (str ''t'') ?text ?params = Inr t"
    by (simp add: ev3)
  from from_multiline_string_one_command_per_line [OF h1, of "str ''t''" ?text] t
  have "task_name t = str ''t''" "task_commands t = map Command_init (splitlines ?text)"
    by blast+
  moreover have "splitlines ?text = [str ''ls'', str ''pwd'']"
    by (simp add: splitlines_def is_linebreak_def str_def)
  ultimately have a: "\<exists>t. from_multiline_string (str ''t'') ?text ?params = Inr t
      \<and> task_name t = str ''t''
      \<and> task_commands t = [Command_init (str ''ls''), Command_init (str ''pwd'')]"
    using t by auto
  have h2: "distinct (map fst ([] :: pydata dict))" by simp
  have n: "map_of ([] :: pydata dict) (str ''shell'') = None" by simp
  from from_multiline_string_one_command_per_line [OF h2, of "str ''t''" "str ''ls''"] n
  have "from_multiline_string (str ''t'') (str ''ls'') [] = Inl (MissingValueError (str ''shell''))"
    by blast
  with h1 a n show ?thesis by blast
qed

text \<open>
  The claim as the specification states it fails on a text with an empty line: the
  lines are not filtered, and the empty line gives a \<^verbatim>\<open>Command\<close> with an empty
  text.
\<close>

theorem from_multiline_string_keeps_empty_line:
  "from_multiline_string (str ''t'') (str ''a'' @ [10, 10] @ str ''b'')
     [(str ''shell'', Val (PStr (str ''target'')))] =
   Inr \<lparr>task_name = str ''t'', task_shell = str ''target'', task_requires = [],
        task_before = [], task_echo = False, task_timeout = PNone, task_fail_fast = True,
        task_check_exit_code = True, task_should_fail = False, task_sleep = PInt 0,
        task_disabled = False,
        task_commands = [Command_init (str ''a''), Command_init [], Command_init (str ''b'')],
        task_vars = []\<rparr>"
  by (simp add: ev3)




text \<open>
  C6. The name of a placeholder is looked up as it was matched, with the whitespace
  around it: \<^verbatim>\<open>${{ X }}\<close> is not resolved against the key \<^verbatim>\<open>X\<close>, and the run
  aborts on the variable \<^verbatim>\<open> X \<close>.
\<close>

theorem apply_vars_padded_name_not_trimmed:
  "Command_apply_vars (Command_init (str ''echo ${{ X }}'')) [(str ''X'', str ''hi'')] =
     Inl (Fatal (str ''Variable  X  not found!''))"
  by (simp add: ev)


text \<open>
  C7. A value that has been substituted is not safe from the substitutions that
  follow: \<^verbatim>\<open>str.replace\<close> works on the whole of the current text, so where the
  value of \<^verbatim>\<open>X\<close> holds the text \<^verbatim>\<open>${{Y}}\<close> and the placeholder \<^verbatim>\<open>${{Y}}\<close> is
  matched after \<^verbatim>\<open>${{X}}\<close>, the value is rewritten and does not stand in the
  result as it is. With the two placeholders in the other order it does.
\<close>

theorem apply_vars_rewrites_substituted_value:
  "Command_apply_vars (Command_init (str ''${{X}} ${{Y}}''))
     [(str ''X'', str ''${{Y}}''), (str ''Y'', str ''z'')] =
   Inr (Command_init (str ''z z''))
   \<and> Command_apply_vars (Command_init (str ''${{Y}} ${{X}}''))
     [(str ''X'', str ''${{Y}}''), (str ''Y'', str ''z'')] =
   Inr (Command_init (str ''z ${{Y}}''))"
  by (simp add: ev)

text \<open>
  C8. \<^verbatim>\<open>Task.load_from_yaml\<close> fails as the parser fails, fails with a
  \<^verbatim>\<open>YAMLError\<close> on a parsed value that is no mapping, and fails fatally when the
  mapping, updated with the overrides, has no \<^verbatim>\<open>name\<close>. Where it returns a task,
  the commands of the task are what \<^verbatim>\<open>Command.load_from_dict\<close> gives for the
  entries of \<^verbatim>\<open>commands\<close> in the updated mapping, one for each, in their order.
\<close>

theorem load_from_yaml_outcomes:
  "(\<forall>e. safe_load yaml_string = Inl e \<longrightarrow>
      load_from_yaml safe_load yaml_string overrides = Inl e) \<and>
   (\<forall>v. safe_load yaml_string = Inr v \<and> (\<forall>d. v \<noteq> PDict d) \<longrightarrow>
      load_from_yaml safe_load yaml_string overrides = Inl YAMLError) \<and>
   (\<forall>d. safe_load yaml_string = Inr (PDict d) \<and>
        map_of (dict_or d overrides) (str ''name'') = None \<longrightarrow>
      load_from_yaml safe_load yaml_string overrides =
        error (str ''Task description file must at least contain a '' @ [39] @
               str ''name'' @ [39] @ str '' field'')) \<and>
   (\<forall>d t. safe_load yaml_string = Inr (PDict d) \<and> distinct (map fst d) \<and>
        load_from_yaml safe_load yaml_string overrides = Inr t \<longrightarrow>
      (\<exists>coms. iterate (case map_of (dict_or d overrides) (str ''commands'') of
                         None \<Rightarrow> PList [] | Some v \<Rightarrow> v) = Inr coms \<and>
         list_all2 (\<lambda>com c. Command_load_from_dict com = Inr c) coms (task_commands t)))"
proof (intro conjI allI impI)
  fix e assume "safe_load yaml_string = Inl e"
  then show "load_from_yaml safe_load yaml_string overrides = Inl e"
    by (simp add: load_from_yaml_def bind_def)
next
  fix v assume "safe_load yaml_string = Inr v \<and> (\<forall>d. v \<noteq> PDict d)"
  then show "load_from_yaml safe_load yaml_string overrides = Inl YAMLError"
    by (cases v) (simp_all add: load_from_yaml_def bind_def)
next
  fix d assume "safe_load yaml_string = Inr (PDict d) \<and>
      map_of (dict_or d overrides) (str ''name'') = None"
  then show "load_from_yaml safe_load yaml_string overrides =
      error (str ''Task description file must at least contain a '' @ [39] @
             str ''name'' @ [39] @ str '' field'')"
    by (simp add: load_from_yaml_def bind_def)
next
  fix d t
  assume a: "safe_load yaml_string = Inr (PDict d) \<and> distinct (map fst d) \<and>
      load_from_yaml safe_load yaml_string overrides = Inr t"
  let ?obj = "dict_or d overrides"
  let ?v = "case map_of ?obj (str ''commands'') of None \<Rightarrow> PList [] | Some v \<Rightarrow> v"
  from a have sl: "safe_load yaml_string = Inr (PDict d)"
    and r: "load_from_yaml safe_load yaml_string overrides = Inr t" by simp_all
  from a have dist: "distinct (map fst ?obj)" by (simp add: distinct_dict_or)
  from r have run: "(if map_of ?obj (str ''name'') = None
       then error (str ''Task description file must at least contain a '' @ [39] @
               str ''name'' @ [39] @ str '' field'')
       else bind (iterate ?v) (\<lambda>coms. bind (load_commands coms) (\<lambda>cs.
              Task_load_from_dict
                (AList.update (str ''commands'') (PList (map PCommand cs)) ?obj)))) = Inr t"
    unfolding load_from_yaml_def sl by (simp add: bind_def Let_def)
  then obtain coms cs where it: "iterate ?v = Inr coms" and lc: "load_commands coms = Inr cs"
    and tl: "Task_load_from_dict
                (AList.update (str ''commands'') (PList (map PCommand cs)) ?obj) = Inr t"
    by (auto simp: bind_def error_def split: if_splits sum.splits)
  from Task_load_from_dict_commands [OF dist tl] have "task_commands t = cs" .
  with lc have "list_all2 (\<lambda>com c. Command_load_from_dict com = Inr c) coms (task_commands t)"
    by (simp add: load_commands_Inr_iff)
  with it show "\<exists>coms. iterate ?v = Inr coms \<and>
      list_all2 (\<lambda>com c. Command_load_from_dict com = Inr c) coms (task_commands t)"
    by blast
qed

theorem load_from_yaml_outcomes_witness:
  "load_from_yaml (parsed (PList [])) (str ''[]'') [] = Inl YAMLError
   \<and> load_from_yaml (parsed (PDict [(str ''shell'', Val (PStr (str ''host'')))]))
         (str ''shell: host'') [] =
       error (str ''Task description file must at least contain a '' @ [39] @
              str ''name'' @ [39] @ str '' field'')
   \<and> (\<exists>t. load_from_yaml
          (parsed (PDict [(str ''name'', Val (PStr (str ''t''))),
                          (str ''commands'',
                             PList [Val (PStr (str ''ls'')),
                                    PDict [(str ''command'', Val (PStr (str ''pwd'')))]])]))
          (str ''name: t'') [(str ''shell'', Val (PStr (str ''host'')))] = Inr t
        \<and> task_commands t = [Command_init (str ''ls''), Command_init (str ''pwd'')])"
proof -
  let ?y = "str ''name: t''"
  let ?d = "[(str ''name'', Val (PStr (str ''t''))),
             (str ''commands'',
                PList [Val (PStr (str ''ls'')),
                       PDict [(str ''command'', Val (PStr (str ''pwd'')))]])]"
  let ?ov = "[(str ''shell'', Val (PStr (str ''host'')))]"
  have a: "load_from_yaml (parsed (PList [])) (str ''[]'') [] = Inl YAMLError"
    using load_from_yaml_outcomes [of "parsed (PList [])" "str ''[]''" "[]"]
    by (simp add: parsed_def)
  have b: "load_from_yaml (parsed (PDict [(str ''shell'', Val (PStr (str ''host'')))]))
         (str ''shell: host'') [] =
       error (str ''Task description file must at least contain a '' @ [39] @
              str ''name'' @ [39] @ str '' field'')"
    using load_from_yaml_outcomes
      [of "parsed (PDict [(str ''shell'', Val (PStr (str ''host'')))])" "str ''shell: host''" "[]"]
    by (simp add: parsed_def dict_or_def str_def)
  obtain t where t: "load_from_yaml (parsed (PDict ?d)) ?y ?ov = Inr t"
    by (simp add: ev3 parsed_def)
  have p: "parsed (PDict ?d) ?y = Inr (PDict ?d)" by (simp add: parsed_def)
  have dd: "distinct (map fst ?d)" by (simp add: str_def)
  from load_from_yaml_outcomes [of "parsed (PDict ?d)" ?y ?ov] p dd t
  obtain coms where it: "iterate (case map_of (dict_or ?d ?ov) (str ''commands'') of
                         None \<Rightarrow> PList [] | Some v \<Rightarrow> v) = Inr coms"
    and la: "list_all2 (\<lambda>com c. Command_load_from_dict com = Inr c) coms (task_commands t)"
    by blast
  from it have coms: "coms = [Val (PStr (str ''ls'')),
      PDict [(str ''command'', Val (PStr (str ''pwd'')))]]"
    by (simp add: dict_or_def str_def)
  have c1: "Command_load_from_dict (Val (PStr (str ''ls''))) = Inr (Command_init (str ''ls''))"
    by (simp add: ev2)
  have c2: "Command_load_from_dict (PDict [(str ''command'', Val (PStr (str ''pwd'')))]) =
      Inr (Command_init (str ''pwd''))"
    by (simp add: ev2)
  from la have "task_commands t = [Command_init (str ''ls''), Command_init (str ''pwd'')]"
    unfolding coms by (auto simp: list_all2_Cons1 c1 c2)
  with a b t show ?thesis by blast
qed

text \<open>
  The claim as the specification states it, that a task is returned whenever the
  text is a mapping with a \<^verbatim>\<open>name\<close>, fails on a mapping without a
  \<^verbatim>\<open>shell\<close>.
\<close>

theorem load_from_yaml_named_mapping_without_shell:
  "load_from_yaml (parsed (PDict [(str ''name'', Val (PStr (str ''t'')))])) (str ''name: t'') [] =
     Inl (MissingValueError (str ''shell''))"
  by (simp add: ev3 parsed_def)




text \<open>
  C10. Where \<^verbatim>\<open>Command.apply_vars\<close> returns, the fields \<^verbatim>\<open>expect\<close>,
  \<^verbatim>\<open>timeout\<close>, \<^verbatim>\<open>echo\<close>, \<^verbatim>\<open>check_exit_code\<close> and \<^verbatim>\<open>should_fail\<close> are as
  they were.
\<close>

theorem apply_vars_changes_command_only:
  assumes "Command_apply_vars self vars = Inr c"
  shows "expect c = expect self \<and> timeout c = timeout self \<and> echo c = echo self \<and>
    check_exit_code c = check_exit_code self \<and> should_fail c = should_fail self"
  using assms by (auto simp: Command_apply_vars_def split: pyval.splits sum.splits)

theorem apply_vars_changes_command_only_witness:
  "Command_apply_vars
     \<lparr>command = PStr (str ''echo ${{X}}''), expect = PStr (str ''ok''), timeout = PInt 5,
      echo = PBool True, check_exit_code = PBool False, should_fail = PBool True\<rparr>
     [(str ''X'', str ''hi'')] =
   Inr \<lparr>command = PStr (str ''echo hi''), expect = PStr (str ''ok''), timeout = PInt 5,
      echo = PBool True, check_exit_code = PBool False, should_fail = PBool True\<rparr>
   \<and> expect \<lparr>command = PStr (str ''echo hi''), expect = PStr (str ''ok''), timeout = PInt 5,
      echo = PBool True, check_exit_code = PBool False, should_fail = PBool True\<rparr> =
     expect \<lparr>command = PStr (str ''echo ${{X}}''), expect = PStr (str ''ok''), timeout = PInt 5,
      echo = PBool True, check_exit_code = PBool False, should_fail = PBool True\<rparr>"
proof -
  have h: "Command_apply_vars
     \<lparr>command = PStr (str ''echo ${{X}}''), expect = PStr (str ''ok''), timeout = PInt 5,
      echo = PBool True, check_exit_code = PBool False, should_fail = PBool True\<rparr>
     [(str ''X'', str ''hi'')] =
   Inr \<lparr>command = PStr (str ''echo hi''), expect = PStr (str ''ok''), timeout = PInt 5,
      echo = PBool True, check_exit_code = PBool False, should_fail = PBool True\<rparr>"
    by (simp add: ev)
  from apply_vars_changes_command_only [OF h] h show ?thesis by blast
qed

end
